theory Spec2Isabelle
  imports Main
begin

section \<open>Python strings\<close>

text \<open>
  File names and identifiers are Python \<open>str\<close> values. They are modelled as
  \<open>string\<close>, each \<open>char\<close> standing for one code point below 256 (Latin-1).
\<close>

definition startswith :: "string \<Rightarrow> string \<Rightarrow> bool" where
  "startswith s p = (take (length p) s = p)"

definition endswith :: "string \<Rightarrow> string \<Rightarrow> bool" where
  "endswith s p = (length p \<le> length s \<and> drop (length s - length p) s = p)"

definition removeprefix :: "string \<Rightarrow> string \<Rightarrow> string" where
  "removeprefix s p = (if startswith s p then drop (length p) s else s)"

definition removesuffix :: "string \<Rightarrow> string \<Rightarrow> string" where
  "removesuffix s p =
     (if p \<noteq> [] \<and> endswith s p then take (length s - length p) s else s)"

text \<open>
  \<open>str.isnumeric\<close>: the string is not empty and every character has a Unicode numeric
  value. Below code point 256 these are the ten decimal digits, the superscripts
  one, two and three, and the fractions one quarter, one half and three quarters.
  \<open>str.isdecimal\<close> characters are the ten decimal digits only.
\<close>

definition isdecimal_char :: "char \<Rightarrow> bool" where
  "isdecimal_char c = (c \<in> set ''0123456789'')"

definition isnumeric_char :: "char \<Rightarrow> bool" where
  "isnumeric_char c =
     (isdecimal_char c \<or> c \<in> set [CHR 0xB2, CHR 0xB3, CHR 0xB9, CHR 0xBC, CHR 0xBD, CHR 0xBE])"

definition isnumeric :: "string \<Rightarrow> bool" where
  "isnumeric s = (s \<noteq> [] \<and> list_all isnumeric_char s)"

text \<open>\<open>str(n)\<close> for an integer: the decimal digits, most significant first, after a
  minus sign when the number is negative. \<open>str_digits\<close> writes a number that is not
  negative.\<close>

definition digit_char :: "int \<Rightarrow> char" where
  "digit_char d = ''0123456789'' ! nat d"

function str_digits :: "int \<Rightarrow> string" where
  "str_digits i =
     (if i < 10 then [digit_char i] else str_digits (i div 10) @ [digit_char (i mod 10)])"
  by pat_completeness auto
termination
  by (relation "measure nat") auto

declare str_digits.simps [simp del]

definition str_int :: "int \<Rightarrow> string" where
  "str_int i = (if i < 0 then CHR ''-'' # str_digits (- i) else str_digits i)"

text \<open>
  \<open>int(s)\<close> as \<open>check_steamfixes\<close> calls it, on a string that passed
  \<open>isnumeric\<close>: such a string holds no sign, blank or underscore, so \<open>int\<close> returns
  its decimal value when every character is a decimal digit and raises
  \<open>ValueError\<close> otherwise (a superscript or a fraction is numeric, not decimal).
\<close>

definition digit_val :: "char \<Rightarrow> int" where
  "digit_val c = of_char c - 48"

definition decimal_value :: "string \<Rightarrow> int" where
  "decimal_value s = foldl (\<lambda>acc c. 10 * acc + digit_val c) 0 s"

section \<open>Errors\<close>

datatype error =
    BrokenLink string string            \<comment> \<open>FileNotFoundError of \<open>check_links\<close>: parent, name\<close>
  | MissingFile string string           \<comment> \<open>FileNotFoundError of \<open>check_filenames\<close>\<close>
  | InvalidSteamFilename string string  \<comment> \<open>ValueError: Steam fix filename is invalid\<close>
  | MissingUmuPrefix string string      \<comment> \<open>ValueError: file does not start with umu-\<close>
  | InvalidLiteral string               \<comment> \<open>ValueError raised by \<open>int\<close>\<close>
  | UpstreamError                       \<comment> \<open>any exception of urlopen, HTTPSConnection or ijson\<close>
  | InvalidSteamAppId int               \<comment> \<open>ValueError: Steam app id is invalid: appid\<close>
  | InvalidGogAppIds "string set"       \<comment> \<open>ValueError: the following GOG app ids are invalid: appids\<close>

definition py_int :: "string \<Rightarrow> error + int" where
  "py_int s = (if list_all isdecimal_char s then Inr (decimal_value s) else Inl (InvalidLiteral s))"

section \<open>The project directory\<close>

text \<open>
  A directory entry as the script observes it: its name, whether it is a symbolic
  link, and what \<open>Path.exists\<close> answers (it follows links, so it is false for a
  dangling link). A project is the list of its subdirectories in scan order, each
  with its entries in scan order.
\<close>

record entry =
  name :: string
  is_symlink :: bool
  exists :: bool

type_synonym tree = "(string \<times> entry list) list"

text \<open>\<open>project.joinpath(d).glob('*')\<close>: every entry of the subdirectory \<open>d\<close>.\<close>

definition glob_star :: "tree \<Rightarrow> string \<Rightarrow> entry list" where
  "glob_star root d = (case map_of root d of None \<Rightarrow> [] | Some es \<Rightarrow> es)"

section \<open>Batches of GOG ids\<close>

text \<open>
  \<open>_batch_generator\<close>: the generator yields its one set object and clears it when
  resumed; \<open>check_gogfixes\<close> copies each yielded set at once, so a batch is the value
  of the set at the moment of the \<open>yield\<close>. The result lists the yielded values.
\<close>

fun batch_loop :: "int \<Rightarrow> entry list \<Rightarrow> string set \<Rightarrow> int \<Rightarrow> string set list" where
  "batch_loop sz [] appids count = [appids]"
| "batch_loop sz (file # files) appids count =
     (if \<not> startswith (name file) ''umu-'' then batch_loop sz files appids count
      else
        let appid = removesuffix (removeprefix (name file) ''umu-'') ''.py'';
            appids' = insert appid appids
        in if count = sz then appids' # batch_loop sz files {} 0
           else batch_loop sz files appids' (count + 1))"

definition batch_generator :: "entry list \<Rightarrow> int \<Rightarrow> string set list" where
  "batch_generator gamefix sz = batch_loop sz gamefix {} 0"

section \<open>Fix modules, links and file names\<close>

text \<open>
  \<open>root.glob('gamefixes-*/*.py')\<close>: the entries whose name ends in \<open>.py\<close>, of the
  subdirectories whose name starts with \<open>gamefixes-\<close>, each paired with the name of
  its parent directory.
\<close>

type_synonym module = "string \<times> entry"

definition glob_py :: "tree \<Rightarrow> module list" where
  "glob_py root =
     concat (map (\<lambda>(d, es). map (Pair d) (filter (\<lambda>e. endswith (name e) ''.py'') es))
                 (filter (\<lambda>(d, es). startswith d ''gamefixes-'') root))"

text \<open>The filter of both checks: \<open>file.name.startswith(('__init__.py', 'default.py',
  'winetricks-gui.py'))\<close>.\<close>

definition ignored :: "string \<Rightarrow> bool" where
  "ignored n =
     (startswith n ''__init__.py'' \<or> startswith n ''default.py'' \<or> startswith n ''winetricks-gui.py'')"

definition gamefixes :: "tree \<Rightarrow> module list" where
  "gamefixes root = filter (\<lambda>(d, e). \<not> ignored (name e)) (glob_py root)"

fun links_loop :: "module list \<Rightarrow> error + unit" where
  "links_loop [] = Inr ()"
| "links_loop ((d, e) # ms) =
     (if is_symlink e \<and> \<not> exists e then Inl (BrokenLink d (name e)) else links_loop ms)"

definition check_links :: "tree \<Rightarrow> error + unit" where
  "check_links root = links_loop (gamefixes root)"

text \<open>\<open>Path.stem\<close>: the name without its last suffix; a name whose only dot is the
  first or the last character has no suffix.\<close>

definition rfind_dot :: "string \<Rightarrow> nat option" where
  "rfind_dot n =
     (case filter (\<lambda>i. n ! i = CHR ''.'') (rev [0..<length n]) of [] \<Rightarrow> None | i # _ \<Rightarrow> Some i)"

definition stem :: "string \<Rightarrow> string" where
  "stem n =
     (case rfind_dot n of
        None \<Rightarrow> n
      | Some i \<Rightarrow> if 0 < i \<and> i < length n - 1 then take i n else n)"

fun filenames_loop :: "module list \<Rightarrow> error + unit" where
  "filenames_loop [] = Inr ()"
| "filenames_loop ((d, e) # ms) =
     (let is_steam = startswith d ''gamefixes-steam'' in
      if \<not> exists e then Inl (MissingFile d (name e))
      else if is_steam \<and> \<not> isnumeric (stem (name e)) then Inl (InvalidSteamFilename d (name e))
      else if \<not> is_steam \<and> \<not> startswith (name e) ''umu-'' then Inl (MissingUmuPrefix d (name e))
      else filenames_loop ms)"

definition check_filenames :: "tree \<Rightarrow> error + unit" where
  "check_filenames root = filenames_loop (gamefixes root)"

section \<open>The upstream services\<close>

text \<open>
  A scalar JSON value as ijson hands it over, and Python's \<open>str\<close> of it. Objects,
  arrays and floating-point numbers are left out: identifiers are integers or strings.
\<close>

datatype jval = JNull | JBool bool | JInt int | JStr string

fun str_jval :: "jval \<Rightarrow> string" where
  "str_jval JNull = ''None''"
| "str_jval (JBool b) = (if b then ''True'' else ''False'')"
| "str_jval (JInt i) = str_int i"
| "str_jval (JStr s) = s"

text \<open>
  What one request returns. \<open>Failed\<close>: opening the URL, sending the request or reading
  the status raised. \<open>Response xs intact\<close>: the streaming parser delivers the elements
  \<open>xs\<close> one by one; when \<open>intact\<close> is false the body is cut or malformed after them,
  and the parser raises when asked for the next element. A loop that leaves the stream
  early never sees that error.
\<close>

datatype 'a response = Failed | Response "'a list" bool

text \<open>
  The answers of the four endpoints, fixed for one run. The products answer is given
  for the set of ids asked. What the script prints is left out.

  \<open>steam_drain_raises appid\<close>: the body of the app-details answer for \<open>appid\<close> ends
  before its declared length, so that \<open>r.read()\<close> on what the parser left unread
  raises. The parser reads with a bound and does not raise there; once it has run to the
  end of the body nothing is left and \<open>r.read()\<close> returns. So the drain can raise
  only after the scan was left early, at the success event.
\<close>

record upstream =
  steam_applist :: "int response"                      \<comment> \<open>appid of each item of applist.apps\<close>
  steam_appdetails :: "int \<Rightarrow> (string \<times> jval) response"  \<comment> \<open>parse events (prefix, value) for one id\<close>
  steam_drain_raises :: "int \<Rightarrow> bool"                 \<comment> \<open>\<open>r.read()\<close> after the success event raises\<close>
  gog_products :: "string set \<Rightarrow> jval response"        \<comment> \<open>id of each item, for the ids asked\<close>
  umu_database :: "jval response"                      \<comment> \<open>umu_id of each item\<close>

text \<open>What the run does to the network, in order.\<close>

datatype request = SteamAppList | SteamAppDetails int | GogProducts "string set" | UmuDatabase

datatype event =
    Urlopen request      \<comment> \<open>\<open>with urlopen(...)\<close>: the response is released when the block is left\<close>
  | ConnOpen             \<comment> \<open>\<open>conn = HTTPSConnection(host)\<close>\<close>
  | ConnRequest request  \<comment> \<open>\<open>conn.request('GET', ...)\<close>\<close>
  | ConnClose            \<comment> \<open>\<open>conn.close()\<close>\<close>

text \<open>Whether a connection is left open at the end of a trace.\<close>

fun conn_open_after :: "event list \<Rightarrow> bool \<Rightarrow> bool" where
  "conn_open_after [] b = b"
| "conn_open_after (ConnOpen # t) b = conn_open_after t True"
| "conn_open_after (ConnClose # t) b = conn_open_after t False"
| "conn_open_after (_ # t) b = conn_open_after t b"

definition leaks_connection :: "event list \<Rightarrow> bool" where
  "leaks_connection t = conn_open_after t False"

section \<open>Reconciling a set of ids with a stream\<close>

text \<open>
  The loop that \<open>check_steamfixes\<close> runs over the app list and \<open>check_gogfixes\<close>
  over a product batch and over the umu database: each element's key is removed from
  \<open>appids\<close> when it is there, and the loop is left as soon as \<open>appids\<close> is empty
  (the test follows the removal, so the first element is always read).
\<close>

fun reconcile_loop :: "('b \<Rightarrow> 'a) \<Rightarrow> 'b list \<Rightarrow> bool \<Rightarrow> 'a set \<Rightarrow> error + 'a set" where
  "reconcile_loop key [] intact appids = (if intact then Inr appids else Inl UpstreamError)"
| "reconcile_loop key (obj # objs) intact appids =
     (let appids' = (if key obj \<in> appids then appids - {key obj} else appids)
      in if appids' = {} then Inr appids' else reconcile_loop key objs intact appids')"

section \<open>Steam fixes\<close>

text \<open>Steam games that are no longer on sale, but are valid ids.\<close>

definition whitelist_steam :: "int set" where
  "whitelist_steam = {231990, 4730, 105400, 321040, 12840, 7850}"

text \<open>Collecting the ids: the names of \<open>gamefixes-steam\<close> without \<open>.py\<close> that are
  numeric, converted by \<open>int\<close>.\<close>

fun steam_appids :: "entry list \<Rightarrow> int set \<Rightarrow> error + int set" where
  "steam_appids [] appids = Inr appids"
| "steam_appids (file # files) appids =
     (let appid = removesuffix (name file) ''.py'' in
      if \<not> isnumeric appid then steam_appids files appids
      else case py_int appid of
             Inl e \<Rightarrow> Inl e
           | Inr n \<Rightarrow> steam_appids files (insert n appids))"

text \<open>
  Reading one app-details answer: the parse events are scanned for the prefix
  \<open><appid>.success\<close> carrying the boolean true.
\<close>

fun scan_success :: "int \<Rightarrow> (string \<times> jval) list \<Rightarrow> bool \<Rightarrow> error + bool" where
  "scan_success appid [] intact = (if intact then Inr False else Inl UpstreamError)"
| "scan_success appid ((prefix, v) # evs) intact =
     (if prefix = str_int appid @ ''.success'' \<and> v = JBool True then Inr True
      else scan_success appid evs intact)"

text \<open>
  The fallback loop runs over a copy of the set, in the order Python iterates that copy
  (the list given), while \<open>appids\<close> shrinks. After the scan the loop is left when
  \<open>appids\<close> is empty; otherwise the rest of the answer is drained with \<open>r.read()\<close>
  (line 74) before the next request. The result carries the events of the requests made.
\<close>

fun steam_fallback_loop ::
  "upstream \<Rightarrow> int list \<Rightarrow> int set \<Rightarrow> (error + int set) \<times> event list" where
  "steam_fallback_loop up [] appids = (Inr appids, [])"
| "steam_fallback_loop up (appid # rest) appids =
     (case steam_appdetails up appid of
        Failed \<Rightarrow> (Inl UpstreamError, [ConnRequest (SteamAppDetails appid)])
      | Response evs intact \<Rightarrow>
          (case scan_success appid evs intact of
             Inl e \<Rightarrow> (Inl e, [ConnRequest (SteamAppDetails appid)])
           | Inr found \<Rightarrow>
               let appids' = (if found then appids - {appid} else appids) in
               if appids' = {} then (Inr appids', [ConnRequest (SteamAppDetails appid)])
               else if found \<and> steam_drain_raises up appid
                 then (Inl UpstreamError, [ConnRequest (SteamAppDetails appid)])
               else case steam_fallback_loop up rest appids' of
                      (r, t) \<Rightarrow> (r, ConnRequest (SteamAppDetails appid) # t)))"

text \<open>Lines 55 to 76: the connection is made, the loop runs, the connection is closed.
  An exception of the loop leaves the function before \<open>conn.close()\<close>.\<close>

definition steam_fallback ::
  "(int set \<Rightarrow> int list) \<Rightarrow> upstream \<Rightarrow> int set \<Rightarrow> (error + int set) \<times> event list" where
  "steam_fallback copy_order up appids =
     (if appids \<noteq> {} then
        (case steam_fallback_loop up (copy_order appids) appids of
           (Inl e, t) \<Rightarrow> (Inl e, ConnOpen # t)
         | (Inr appids', t) \<Rightarrow> (Inr appids', ConnOpen # t @ [ConnClose]))
      else (Inr appids, []))"

text \<open>Lines 79 to 82: the first remaining id, in the order Python iterates \<open>appids\<close>
  itself, that is not in the whitelist raises; the message holds that one id.\<close>

definition steam_verdict :: "(int set \<Rightarrow> int list) \<Rightarrow> int set \<Rightarrow> error + unit" where
  "steam_verdict order appids =
     (case find (\<lambda>appid. appid \<notin> whitelist_steam) (order appids) of
        None \<Rightarrow> Inr ()
      | Some appid \<Rightarrow> Inl (InvalidSteamAppId appid))"

text \<open>Lines 34 to 76: what is left of the ids after the app list and the fallback.\<close>

definition steam_remaining ::
  "(int set \<Rightarrow> int list) \<Rightarrow> tree \<Rightarrow> upstream \<Rightarrow> (error + int set) \<times> event list" where
  "steam_remaining copy_order root up =
     (case steam_appids (glob_star root ''gamefixes-steam'') {} of
        Inl e \<Rightarrow> (Inl e, [])
      | Inr appids \<Rightarrow>
          (case steam_applist up of
             Failed \<Rightarrow> (Inl UpstreamError, [Urlopen SteamAppList])
           | Response objs intact \<Rightarrow>
               (case reconcile_loop id objs intact appids of
                  Inl e \<Rightarrow> (Inl e, [Urlopen SteamAppList])
                | Inr appids' \<Rightarrow>
                    (case steam_fallback copy_order up appids' of
                       (r, t) \<Rightarrow> (r, Urlopen SteamAppList # t)))))"

text \<open>
  \<open>check_steamfixes\<close> iterates two sets: the copy of \<open>appids\<close> in the fallback
  (line 60) and \<open>appids\<close> itself in the verdict (line 79). Python may iterate them in
  different orders, so each loop has its own order.
\<close>

definition check_steamfixes ::
  "(int set \<Rightarrow> int list) \<Rightarrow> (int set \<Rightarrow> int list) \<Rightarrow> tree \<Rightarrow> upstream
     \<Rightarrow> (error + unit) \<times> event list" where
  "check_steamfixes copy_order order root up =
     (case steam_remaining copy_order root up of
        (Inl e, t) \<Rightarrow> (Inl e, t)
      | (Inr appids, t) \<Rightarrow> (steam_verdict order appids, t))"

section \<open>GOG fixes\<close>

text \<open>Lines 95 to 109: every batch replaces \<open>appids\<close> by its own copy before its
  products are read.\<close>

fun gog_batches ::
  "upstream \<Rightarrow> string set list \<Rightarrow> string set \<Rightarrow> (error + string set) \<times> event list" where
  "gog_batches up [] appids = (Inr appids, [])"
| "gog_batches up (gogids # batches) appids =
     (case gog_products up gogids of
        Failed \<Rightarrow> (Inl UpstreamError, [Urlopen (GogProducts gogids)])
      | Response objs intact \<Rightarrow>
          (case reconcile_loop str_jval objs intact gogids of
             Inl e \<Rightarrow> (Inl e, [Urlopen (GogProducts gogids)])
           | Inr appids' \<Rightarrow>
               (case gog_batches up batches appids' of
                  (r, t) \<Rightarrow> (r, Urlopen (GogProducts gogids) # t))))"

text \<open>Lines 112 to 119: ids that are names of Steam fixes.\<close>

fun gog_steam_loop :: "entry list \<Rightarrow> string set \<Rightarrow> string set" where
  "gog_steam_loop [] appids = appids"
| "gog_steam_loop (file # files) appids =
     (let appid = removesuffix (name file) ''.py'';
          appids' = (if appid \<in> appids then appids - {appid} else appids)
      in if appids' = {} then appids' else gog_steam_loop files appids')"

definition gog_steam :: "tree \<Rightarrow> string set \<Rightarrow> string set" where
  "gog_steam root appids =
     (if appids \<noteq> {} then gog_steam_loop (glob_star root ''gamefixes-steam'') appids else appids)"

text \<open>Lines 122 to 136: the umu database, over one connection.\<close>

definition umu_key :: "jval \<Rightarrow> string" where
  "umu_key obj = removeprefix (str_jval obj) ''umu-''"

definition gog_umu :: "upstream \<Rightarrow> string set \<Rightarrow> (error + string set) \<times> event list" where
  "gog_umu up appids =
     (if appids \<noteq> {} then
        (case umu_database up of
           Failed \<Rightarrow> (Inl UpstreamError, [ConnOpen, ConnRequest UmuDatabase])
         | Response objs intact \<Rightarrow>
             (case reconcile_loop umu_key objs intact appids of
                Inl e \<Rightarrow> (Inl e, [ConnOpen, ConnRequest UmuDatabase])
              | Inr appids' \<Rightarrow> (Inr appids', [ConnOpen, ConnRequest UmuDatabase, ConnClose])))
      else (Inr appids, []))"

definition gog_remaining :: "tree \<Rightarrow> upstream \<Rightarrow> (error + string set) \<times> event list" where
  "gog_remaining root up =
     (case gog_batches up (batch_generator (glob_star root ''gamefixes-gog'') 50) {} of
        (Inl e, t) \<Rightarrow> (Inl e, t)
      | (Inr appids, t) \<Rightarrow>
          (case gog_umu up (gog_steam root appids) of (r, t') \<Rightarrow> (r, t @ t')))"

definition gog_verdict :: "string set \<Rightarrow> error + unit" where
  "gog_verdict appids = (if appids \<noteq> {} then Inl (InvalidGogAppIds appids) else Inr ())"

definition check_gogfixes :: "tree \<Rightarrow> upstream \<Rightarrow> (error + unit) \<times> event list" where
  "check_gogfixes root up =
     (case gog_remaining root up of
        (Inl e, t) \<Rightarrow> (Inl e, t)
      | (Inr appids, t) \<Rightarrow> (gog_verdict appids, t))"

section \<open>The run\<close>

text \<open>Lines 241 to 244: the four checks in a row; an exception ends the run.\<close>

definition main ::
  "(int set \<Rightarrow> int list) \<Rightarrow> (int set \<Rightarrow> int list) \<Rightarrow> tree \<Rightarrow> upstream
     \<Rightarrow> (error + unit) \<times> event list" where
  "main copy_order order root up =
     (case check_links root of
        Inl e \<Rightarrow> (Inl e, [])
      | Inr _ \<Rightarrow>
          (case check_filenames root of
             Inl e \<Rightarrow> (Inl e, [])
           | Inr _ \<Rightarrow>
               (case check_steamfixes copy_order order root up of
                  (Inl e, t) \<Rightarrow> (Inl e, t)
                | (Inr _, t) \<Rightarrow>
                    (case check_gogfixes root up of (r, t') \<Rightarrow> (r, t @ t')))))"

text \<open>
  An iteration order of Python's sets: it lists each finite set once. Python fixes no
  order, and the order of a set depends on how it was built; a run iterates each of its
  two sets of Steam ids once, so the two orders given as parameters, functions of the
  set, describe any run.
\<close>

definition valid_order :: "('a set \<Rightarrow> 'a list) \<Rightarrow> bool" where
  "valid_order order = (\<forall>S. finite S \<longrightarrow> set (order S) = S \<and> distinct (order S))"

section \<open>What the fallback and the verdicts depend on\<close>




text \<open>The ids an error message holds.\<close>

fun steam_ids_named :: "error \<Rightarrow> int set" where
  "steam_ids_named (InvalidSteamAppId appid) = {appid}"
| "steam_ids_named _ = {}"

fun gog_ids_named :: "error \<Rightarrow> string set" where
  "gog_ids_named (InvalidGogAppIds appids) = appids"
| "gog_ids_named _ = {}"

section \<open>The properties as the specification words them\<close>

text \<open>The ids of a GOG directory: the names that start with \<open>umu-\<close>, without that
  prefix and without \<open>.py\<close>, in scan order.\<close>

definition gog_ids :: "entry list \<Rightarrow> string list" where
  "gog_ids files =
     map (\<lambda>file. removesuffix (removeprefix (name file) ''umu-'') ''.py'')
         (filter (\<lambda>file. startswith (name file) ''umu-'') files)"

fun pairwise_disjoint :: "'a set list \<Rightarrow> bool" where
  "pairwise_disjoint [] = True"
| "pairwise_disjoint (b # bs) = (list_all (\<lambda>b'. b \<inter> b' = {}) bs \<and> pairwise_disjoint bs)"

text \<open>The naming rule of a fix module, and the error \<open>check_filenames\<close> has for a
  module that breaks it.\<close>

definition naming_rule :: "module \<Rightarrow> bool" where
  "naming_rule m =
     (case m of (d, e) \<Rightarrow>
        exists e \<and>
        (if startswith d ''gamefixes-steam'' then isnumeric (stem (name e))
         else startswith (name e) ''umu-''))"

definition naming_error :: "module \<Rightarrow> error" where
  "naming_error m =
     (case m of (d, e) \<Rightarrow>
        if \<not> exists e then MissingFile d (name e)
        else if startswith d ''gamefixes-steam'' then InvalidSteamFilename d (name e)
        else MissingUmuPrefix d (name e))"

text \<open>The specification's exclusion: the three files \<open>__init__.py\<close>, \<open>default.py\<close>
  and \<open>winetricks-gui.py\<close>, and the success condition it gives for
  \<open>check_filenames\<close>.\<close>

definition spec_excluded :: "string \<Rightarrow> bool" where
  "spec_excluded n = (n \<in> set [''__init__.py'', ''default.py'', ''winetricks-gui.py''])"

definition spec_filenames_ok :: "tree \<Rightarrow> bool" where
  "spec_filenames_ok root =
     list_all naming_rule (filter (\<lambda>(d, e). \<not> spec_excluded (name e)) (glob_py root))"

text \<open>The specification's report of a failing Steam check: an error whose message
  holds every remaining id that is not in the whitelist.\<close>

definition spec_steam_report ::
  "(int set \<Rightarrow> int list) \<Rightarrow> (int set \<Rightarrow> int list) \<Rightarrow> tree \<Rightarrow> upstream \<Rightarrow> bool" where
  "spec_steam_report copy_order order root up =
     (case steam_remaining copy_order root up of
        (Inl e, t) \<Rightarrow> True
      | (Inr appids, t) \<Rightarrow>
          (if appids - whitelist_steam = {} then True
           else case fst (check_steamfixes copy_order order root up) of
                  Inl e \<Rightarrow> appids - whitelist_steam \<subseteq> steam_ids_named e
                | Inr _ \<Rightarrow> False))"

section \<open>Projects and upstream answers used as examples\<close>

definition regular_file :: "string \<Rightarrow> entry" where
  "regular_file n = \<lparr>name = n, is_symlink = False, exists = True\<rparr>"

definition dangling_link :: "string \<Rightarrow> entry" where
  "dangling_link n = \<lparr>name = n, is_symlink = True, exists = False\<rparr>"

text \<open>\<open>umu-a.py\<close>, ..., \<open>umu-b.py\<close>, in that order.\<close>

definition numbered_fixes :: "nat \<Rightarrow> nat \<Rightarrow> entry list" where
  "numbered_fixes a b = map (\<lambda>k. regular_file (''umu-'' @ str_int (int k) @ ''.py'')) [a..<Suc b]"

text \<open>Upstream services that answer well-formed, empty documents: no id is known.\<close>

definition knows_nothing :: upstream where
  "knows_nothing =
     \<lparr>steam_applist = Response [] True,
      steam_appdetails = (\<lambda>_. Response [] True),
      steam_drain_raises = (\<lambda>_. False),
      gog_products = (\<lambda>_. Response [] True),
      umu_database = Response [] True\<rparr>"

text \<open>The same, but the bodies of the app-details and of the umu database answers are
  cut short, so that the parser raises.\<close>

definition truncated :: upstream where
  "truncated =
     \<lparr>steam_applist = Response [] True,
      steam_appdetails = (\<lambda>_. Response [] False),
      steam_drain_raises = (\<lambda>_. True),
      gog_products = (\<lambda>_. Response [] True),
      umu_database = Response [] False\<rparr>"



text \<open>Projects of the specification's scenarios.\<close>

definition whitelisted_fix :: tree where
  "whitelisted_fix = [(''gamefixes-steam'', [regular_file ''231990.py''])]"

definition unknown_fix :: tree where
  "unknown_fix = [(''gamefixes-steam'', [regular_file ''99999999.py''])]"

definition two_unknown_fixes :: tree where
  "two_unknown_fixes =
     [(''gamefixes-steam'', [regular_file ''99999998.py'', regular_file ''99999999.py''])]"

definition misnamed_fix :: tree where
  "misnamed_fix = [(''gamefixes-steam'', [regular_file ''notanumber.py''])]"

definition dangling_fix :: tree where
  "dangling_fix = [(''gamefixes-gog'', [dangling_link ''umu-0001.py''])]"

definition two_gog_fixes :: tree where
  "two_gog_fixes = [(''gamefixes-gog'', numbered_fixes 1 2)]"

text \<open>Two iteration orders of sets of integers.\<close>

definition increasing :: "int set \<Rightarrow> int list" where
  "increasing = sorted_list_of_set"


section \<open>Batches\<close>

lemma gog_ids_Nil: "gog_ids [] = []"
  by (simp add: gog_ids_def)

lemma gog_ids_Cons:
  "gog_ids (file # files) =
     (if startswith (name file) ''umu-''
      then removesuffix (removeprefix (name file) ''umu-'') ''.py'' # gog_ids files
      else gog_ids files)"
  by (simp add: gog_ids_def)

lemma batch_loop_not_Nil: "batch_loop sz fs appids count \<noteq> []"
  by (induction fs arbitrary: appids count) (simp_all add: Let_def)

lemma batch_loop_Union:
  "\<Union> (set (batch_loop sz fs appids count)) = appids \<union> set (gog_ids fs)"
proof (induction fs arbitrary: appids count)
  case Nil
  show ?case by (simp add: gog_ids_Nil)
next
  case (Cons f fs)
  show ?case
    by (auto simp: Let_def gog_ids_Cons Cons.IH)
qed

lemma batch_loop_disjoint:
  "distinct (gog_ids fs) \<Longrightarrow> appids \<inter> set (gog_ids fs) = {}
   \<Longrightarrow> pairwise_disjoint (batch_loop sz fs appids count)"
proof (induction fs arbitrary: appids count)
  case Nil
  show ?case by simp
next
  case (Cons f fs)
  show ?case
  proof (cases "startswith (name f) ''umu-''")
    case False
    with Cons show ?thesis by (simp add: gog_ids_Cons)
  next
    case True
    define appid where "appid = removesuffix (removeprefix (name f) ''umu-'') ''.py''"
    from True Cons.prems have d: "distinct (gog_ids fs)" and n: "appid \<notin> set (gog_ids fs)"
      and a: "appids \<inter> set (gog_ids fs) = {}"
      by (auto simp: gog_ids_Cons appid_def)
    show ?thesis
    proof (cases "count = sz")
      case False
      from n a have "insert appid appids \<inter> set (gog_ids fs) = {}" by auto
      from Cons.IH[OF d this] True False show ?thesis
        by (simp add: Let_def appid_def)
    next
      case eq: True
      have later: "b \<subseteq> set (gog_ids fs)" if "b \<in> set (batch_loop sz fs {} 0)" for b
        using batch_loop_Union[of sz fs "{}" 0] that by auto
      have "list_all (\<lambda>b'. insert appid appids \<inter> b' = {}) (batch_loop sz fs {} 0)"
        unfolding list_all_iff
      proof
        fix b assume "b \<in> set (batch_loop sz fs {} 0)"
        from later[OF this] n a show "insert appid appids \<inter> b = {}" by auto
      qed
      moreover have "pairwise_disjoint (batch_loop sz fs {} 0)"
        using Cons.IH[OF d, of "{}" 0] by simp
      ultimately show ?thesis using True eq
        by (simp add: Let_def appid_def)
    qed
  qed
qed

text \<open>
  C2. Claimed: every batch of \<open>_batch_generator\<close> holds at most 50 ids. The counter
  is compared with the size before it is incremented, so the set is yielded when the
  51st id has been added: for \<open>umu-1.py\<close>, ..., \<open>umu-51.py\<close> the first batch holds
  51 ids and the last one is empty.
\<close>

theorem batch_of_51_ids:
  "map card (batch_generator (numbered_fixes 1 51) 50) = [51, 0]"
  by code_simp

text \<open>
  C9, as claimed: the batches are pairwise disjoint for every directory. With an entry
  \<open>umu-1\<close> first, fifty fixes \<open>umu-2.py\<close>, ..., \<open>umu-51.py\<close> and \<open>umu-1.py\<close>
  last, the id \<open>1\<close> is in the first batch and in the last.
\<close>

theorem batches_overlap_counterexample:
  "\<not> pairwise_disjoint
        (batch_generator
           (regular_file ''umu-1'' # numbered_fixes 2 51 @ [regular_file ''umu-1.py'']) 50)"
  by code_simp

text \<open>
  C9, amended: \<open>_batch_generator\<close> yields at least one set, the union of the yielded
  sets is the set of the directory's ids, and the sets are pairwise disjoint when no
  two \<open>umu-\<close> entries of the directory have the same id.
\<close>

theorem batches_partition_ids:
  "batch_generator files sz \<noteq> []
   \<and> \<Union> (set (batch_generator files sz)) = set (gog_ids files)
   \<and> (distinct (gog_ids files) \<longrightarrow> pairwise_disjoint (batch_generator files sz))"
  unfolding batch_generator_def
  using batch_loop_not_Nil[of sz files "{}" 0] batch_loop_Union[of sz files "{}" 0]
    batch_loop_disjoint[of files "{}" sz 0]
  by simp

lemma distinct_numbered: "distinct (gog_ids (numbered_fixes 1 52))"
  by code_simp

theorem batches_partition_ids_witness:
  "batch_generator (numbered_fixes 1 52) 50 \<noteq> []
   \<and> \<Union> (set (batch_generator (numbered_fixes 1 52) 50)) = set (gog_ids (numbered_fixes 1 52))
   \<and> distinct (gog_ids (numbered_fixes 1 52))
   \<and> pairwise_disjoint (batch_generator (numbered_fixes 1 52) 50)"
  using batches_partition_ids[of "numbered_fixes 1 52" 50] distinct_numbered
  by simp

section \<open>File names\<close>

lemma filenames_loop_find:
  "filenames_loop ms =
     (case find (\<lambda>m. \<not> naming_rule m) ms of None \<Rightarrow> Inr () | Some m \<Rightarrow> Inl (naming_error m))"
  by (induction ms rule: filenames_loop.induct)
     (auto simp: naming_rule_def naming_error_def Let_def)

lemma find_None_list_all:
  "(find (\<lambda>m. \<not> naming_rule m) ms = None) = list_all naming_rule ms"
  by (auto simp: find_None_iff list_all_iff)

text \<open>
  C6, as claimed: \<open>check_filenames\<close> succeeds exactly when every \<open>.py\<close> file of a
  \<open>gamefixes-\<close> directory other than \<open>__init__.py\<close>, \<open>default.py\<close> and
  \<open>winetricks-gui.py\<close> follows the naming rule. The check skips every name that
  starts with one of the three, so \<open>gamefixes-gog/default.py.py\<close> passes.
\<close>

theorem filenames_exclusion_counterexample:
  "check_filenames [(''gamefixes-gog'', [regular_file ''default.py.py''])] = Inr ()
   \<and> \<not> spec_filenames_ok [(''gamefixes-gog'', [regular_file ''default.py.py''])]"
  by code_simp

text \<open>
  C6, amended: \<open>check_filenames\<close> succeeds exactly when every \<open>.py\<close> file of a
  \<open>gamefixes-\<close> directory whose name does not start with \<open>__init__.py\<close>,
  \<open>default.py\<close> or \<open>winetricks-gui.py\<close> exists and follows the naming rule of its
  directory; otherwise it fails with the error of the first file, in scan order, that
  does not.
\<close>

theorem check_filenames_naming:
  "(check_filenames root = Inr ()) = list_all naming_rule (gamefixes root)
   \<and> check_filenames root =
       (case find (\<lambda>m. \<not> naming_rule m) (gamefixes root) of
          None \<Rightarrow> Inr ()
        | Some m \<Rightarrow> Inl (naming_error m))"
proof (cases "find (\<lambda>m. \<not> naming_rule m) (gamefixes root)")
  case None
  then show ?thesis
    using find_None_list_all[of "gamefixes root"]
    by (simp add: check_filenames_def filenames_loop_find)
next
  case (Some m)
  then show ?thesis
    using find_None_list_all[of "gamefixes root"]
    by (simp add: check_filenames_def filenames_loop_find)
qed

section \<open>GOG ids that no batch keeps\<close>

text \<open>
  C1. Claimed: an id that the products of its batch do not resolve is still checked
  against the Steam fixes and the umu database, and reported when nothing resolves it.
  Each batch overwrites \<open>appids\<close>, so only the last batch reaches the fallbacks.
  When no service knows any id, the 51 fixes \<open>umu-1.py\<close>, ..., \<open>umu-51.py\<close> pass
  (the last batch is empty); with \<open>umu-52.py\<close> added only \<open>52\<close> is reported; a
  single fix is reported.
\<close>

theorem gog_earlier_batch_dropped:
  "fst (check_gogfixes [(''gamefixes-gog'', numbered_fixes 1 51)] knows_nothing) = Inr ()
   \<and> fst (check_gogfixes [(''gamefixes-gog'', numbered_fixes 1 52)] knows_nothing)
       = Inl (InvalidGogAppIds {''52''})
   \<and> fst (check_gogfixes [(''gamefixes-gog'', numbered_fixes 1 1)] knows_nothing)
       = Inl (InvalidGogAppIds {''1''})"
  by code_simp

section \<open>The connection\<close>

text \<open>
  C3. Claimed: the connection of the fallback queries is closed on every exit path,
  exceptions included. \<open>conn.close()\<close> follows the loop with no \<open>try\<close> around it:
  when the body of an answer is cut short the parser raises and the function is left
  with the connection open, in \<open>check_steamfixes\<close> and in \<open>check_gogfixes\<close>.
\<close>

theorem connection_left_open_on_error:
  "check_steamfixes increasing increasing [(''gamefixes-steam'', [regular_file ''99999999.py''])] truncated
     = (Inl UpstreamError, [Urlopen SteamAppList, ConnOpen, ConnRequest (SteamAppDetails 99999999)])
   \<and> leaks_connection [Urlopen SteamAppList, ConnOpen, ConnRequest (SteamAppDetails 99999999)]
   \<and> check_gogfixes [(''gamefixes-gog'', [regular_file ''umu-1.py''])] truncated
     = (Inl UpstreamError, [Urlopen (GogProducts {''1''}), ConnOpen, ConnRequest UmuDatabase])
   \<and> leaks_connection [Urlopen (GogProducts {''1''}), ConnOpen, ConnRequest UmuDatabase]"
  by code_simp

section \<open>The Steam check\<close>

lemma valid_orderD:
  "valid_order order \<Longrightarrow> finite S \<Longrightarrow> set (order S) = S \<and> distinct (order S)"
  by (simp add: valid_order_def)

lemma valid_increasing: "valid_order increasing"
  by (simp add: valid_order_def increasing_def)


lemma steam_appids_Inl:
  "steam_appids files appids = Inl e \<Longrightarrow> \<exists>s. e = InvalidLiteral s"
  by (induction files arbitrary: appids)
     (auto simp: Let_def py_int_def split: if_splits sum.splits)

lemma steam_appids_finite:
  "steam_appids files appids = Inr S \<Longrightarrow> finite appids \<Longrightarrow> finite S"
  by (induction files arbitrary: appids)
     (auto simp: Let_def split: if_splits sum.splits)

lemma reconcile_loop_Inl:
  "reconcile_loop key objs intact appids = Inl e \<Longrightarrow> e = UpstreamError"
  by (induction objs arbitrary: appids) (auto simp: Let_def split: if_splits)

lemma reconcile_loop_subset:
  "reconcile_loop key objs intact appids = Inr rest \<Longrightarrow> rest \<subseteq> appids"
  by (induction objs arbitrary: appids) (auto simp: Let_def split: if_splits)

lemma reconcile_loop_removed:
  "reconcile_loop key objs intact appids = Inr rest \<Longrightarrow> appids - rest \<subseteq> key ` set objs"
  by (induction objs arbitrary: appids) (auto simp: Let_def split: if_splits)

lemma scan_success_Inl: "scan_success appid evs intact = Inl e \<Longrightarrow> e = UpstreamError"
  by (induction evs) (auto split: if_splits)






lemma steam_fallback_loop_Inl:
  "steam_fallback_loop up ids appids = (Inl e, t) \<Longrightarrow> e = UpstreamError"
proof (induction ids arbitrary: appids t)
  case Nil
  then show ?case by simp
next
  case (Cons a ids)
  show ?case
  proof (cases "steam_appdetails up a")
    case Failed
    with Cons.prems show ?thesis by simp
  next
    case (Response evs intact)
    show ?thesis
    proof (cases "scan_success a evs intact")
      case (Inl e')
      with Response Cons.prems scan_success_Inl[OF Inl] show ?thesis by simp
    next
      case (Inr found)
      define appids' where "appids' = (if found then appids - {a} else appids)"
      show ?thesis
      proof (cases "appids' = {}")
        case True
        with Response Inr Cons.prems show ?thesis by (simp add: appids'_def)
      next
        case False
        show ?thesis
        proof (cases "found \<and> steam_drain_raises up a")
          case True
          with Response Inr False Cons.prems show ?thesis by (simp add: appids'_def)
        next
          case nd: False
          obtain r t' where l: "steam_fallback_loop up ids appids' = (r, t')"
            by (cases "steam_fallback_loop up ids appids'")
          with Response Inr False nd Cons.prems have "r = Inl e"
            by (auto simp: appids'_def)
          with l Cons.IH show ?thesis by simp
        qed
      qed
    qed
  qed
qed

lemma steam_fallback_Inl:
  "steam_fallback order up appids = (Inl e, t) \<Longrightarrow> e = UpstreamError"
proof (cases "appids = {}")
  case True
  assume "steam_fallback order up appids = (Inl e, t)"
  with True show ?thesis by (simp add: steam_fallback_def)
next
  case False
  assume a: "steam_fallback order up appids = (Inl e, t)"
  obtain r t' where l: "steam_fallback_loop up (order appids) appids = (r, t')"
    by (cases "steam_fallback_loop up (order appids) appids")
  show ?thesis
  proof (cases r)
    case (Inl e')
    with a l False have "e' = e" by (simp add: steam_fallback_def)
    with l Inl steam_fallback_loop_Inl show ?thesis by simp
  next
    case (Inr S)
    with a l False show ?thesis by (simp add: steam_fallback_def)
  qed
qed

lemma steam_remaining_Inl:
  assumes "steam_remaining copy_order root up = (Inl e, t)"
  shows "e = UpstreamError \<or> (\<exists>s. e = InvalidLiteral s)"
proof (cases "steam_appids (glob_star root ''gamefixes-steam'') {}")
  case (Inl e')
  with assms have "e' = e" by (simp add: steam_remaining_def)
  with steam_appids_Inl[OF Inl] show ?thesis by simp
next
  case (Inr appids)
  show ?thesis
  proof (cases "steam_applist up")
    case Failed
    with Inr assms show ?thesis by (simp add: steam_remaining_def)
  next
    case (Response objs intact)
    show ?thesis
    proof (cases "reconcile_loop id objs intact appids")
      case (Inl e')
      with Inr Response assms have "e' = e" by (simp add: steam_remaining_def)
      with reconcile_loop_Inl[OF Inl] show ?thesis by simp
    next
      case r: (Inr appids')
      obtain res t' where st: "steam_fallback copy_order up appids' = (res, t')"
        by (cases "steam_fallback copy_order up appids'")
      with Inr Response r assms have "res = Inl e" by (simp add: steam_remaining_def)
      with st steam_fallback_Inl show ?thesis by simp
    qed
  qed
qed

lemma steam_verdict_Inl:
  "steam_verdict order R = Inl e \<Longrightarrow> \<exists>a. e = InvalidSteamAppId a \<and> a \<notin> whitelist_steam"
proof -
  assume a: "steam_verdict order R = Inl e"
  show ?thesis
  proof (cases "find (\<lambda>appid. appid \<notin> whitelist_steam) (order R)")
    case None
    with a show ?thesis by (simp add: steam_verdict_def)
  next
    case (Some x)
    then have "x \<notin> whitelist_steam" by (auto simp: find_Some_iff)
    with a Some show ?thesis by (auto simp: steam_verdict_def)
  qed
qed

lemma check_steamfixes_cases:
  obtains (raised) e t where "steam_remaining copy_order root up = (Inl e, t)"
      "check_steamfixes copy_order order root up = (Inl e, t)"
  | (judged) R t where "steam_remaining copy_order root up = (Inr R, t)"
      "check_steamfixes copy_order order root up = (steam_verdict order R, t)"
proof (cases "steam_remaining copy_order root up")
  case (Pair r t)
  show ?thesis
  proof (cases r)
    case (Inl e)
    with Pair raised show ?thesis by (simp add: check_steamfixes_def)
  next
    case (Inr R)
    with Pair judged show ?thesis by (simp add: check_steamfixes_def)
  qed
qed


lemma steam_fallback_loop_subset:
  "steam_fallback_loop up ids appids = (Inr R, t) \<Longrightarrow> R \<subseteq> appids"
proof (induction ids arbitrary: appids t)
  case Nil
  then show ?case by simp
next
  case (Cons a ids)
  show ?case
  proof (cases "steam_appdetails up a")
    case Failed
    with Cons.prems show ?thesis by simp
  next
    case (Response evs intact)
    show ?thesis
    proof (cases "scan_success a evs intact")
      case (Inl e')
      with Response Cons.prems show ?thesis by simp
    next
      case (Inr found)
      define appids' where "appids' = (if found then appids - {a} else appids)"
      have sub: "appids' \<subseteq> appids" by (auto simp: appids'_def)
      show ?thesis
      proof (cases "appids' = {}")
        case True
        with Response Inr Cons.prems show ?thesis by (auto simp: appids'_def)
      next
        case False
        show ?thesis
        proof (cases "found \<and> steam_drain_raises up a")
          case True
          with Response Inr False Cons.prems show ?thesis by (simp add: appids'_def)
        next
          case nd: False
          obtain r t' where l: "steam_fallback_loop up ids appids' = (r, t')"
            by (cases "steam_fallback_loop up ids appids'")
          with Response Inr False nd Cons.prems have "r = Inr R"
            by (auto simp: appids'_def)
          with l Cons.IH[of appids' t'] have "R \<subseteq> appids'" by simp
          with sub show ?thesis by simp
        qed
      qed
    qed
  qed
qed

lemma steam_fallback_subset:
  assumes "steam_fallback copy_order up appids = (Inr R, t)"
  shows "R \<subseteq> appids"
proof (cases "appids = {}")
  case True
  with assms show ?thesis by (simp add: steam_fallback_def)
next
  case False
  obtain r t' where l: "steam_fallback_loop up (copy_order appids) appids = (r, t')"
    by (cases "steam_fallback_loop up (copy_order appids) appids")
  show ?thesis
  proof (cases r)
    case (Inl e)
    with assms l False show ?thesis by (simp add: steam_fallback_def)
  next
    case (Inr S)
    with assms l False have "S = R" by (simp add: steam_fallback_def)
    with l Inr steam_fallback_loop_subset[of up "copy_order appids" appids R t']
    show ?thesis by simp
  qed
qed

lemma steam_remaining_finite:
  assumes "steam_remaining copy_order root up = (Inr R, t)"
  shows "finite R"
proof (cases "steam_appids (glob_star root ''gamefixes-steam'') {}")
  case (Inl e)
  with assms show ?thesis by (simp add: steam_remaining_def)
next
  case (Inr appids)
  have fin: "finite appids" using steam_appids_finite[OF Inr] by simp
  show ?thesis
  proof (cases "steam_applist up")
    case Failed
    with Inr assms show ?thesis by (simp add: steam_remaining_def)
  next
    case (Response objs intact)
    show ?thesis
    proof (cases "reconcile_loop id objs intact appids")
      case (Inl e)
      with Inr Response assms show ?thesis by (simp add: steam_remaining_def)
    next
      case r: (Inr appids')
      have f': "finite appids'"
        using reconcile_loop_subset[OF r] fin by (rule finite_subset)
      obtain res t' where st: "steam_fallback copy_order up appids' = (res, t')"
        by (cases "steam_fallback copy_order up appids'")
      with Inr Response r assms have "res = Inr R" by (simp add: steam_remaining_def)
      with st steam_fallback_subset[of copy_order up appids' R t'] have "R \<subseteq> appids'"
        by simp
      then show ?thesis using f' by (rule finite_subset)
    qed
  qed
qed

lemma steam_verdict_ok:
  assumes "valid_order order" "finite R"
  shows "(steam_verdict order R = Inr ()) = (R \<subseteq> whitelist_steam)"
proof -
  from valid_orderD[OF assms] have s: "set (order R) = R" by simp
  have "(find (\<lambda>appid. appid \<notin> whitelist_steam) (order R) = None) = (R \<subseteq> whitelist_steam)"
    unfolding find_None_iff s by auto
  then show ?thesis
    by (cases "find (\<lambda>appid. appid \<notin> whitelist_steam) (order R)")
       (simp_all add: steam_verdict_def)
qed

lemma steam_verdict_error:
  assumes "valid_order order" "finite R" "\<not> R \<subseteq> whitelist_steam"
  shows "\<exists>a \<in> R - whitelist_steam.
           steam_verdict order R = Inl (InvalidSteamAppId a)
           \<and> find (\<lambda>x. x \<notin> whitelist_steam) (order R) = Some a"
proof -
  from valid_orderD[OF assms(1,2)] have s: "set (order R) = R" by simp
  have "find (\<lambda>x. x \<notin> whitelist_steam) (order R) \<noteq> None"
    unfolding find_None_iff s using assms(3) by auto
  then obtain a where f: "find (\<lambda>x. x \<notin> whitelist_steam) (order R) = Some a" by auto
  then have "a \<in> set (order R)" "a \<notin> whitelist_steam"
    by (auto simp: find_Some_iff)
  with s f show ?thesis
    by (auto simp: steam_verdict_def)
qed

lemma steam_remaining_whitelisted:
  "steam_remaining increasing whitelisted_fix knows_nothing =
     (Inr {231990},
      [Urlopen SteamAppList, ConnOpen, ConnRequest (SteamAppDetails 231990), ConnClose])"
  by code_simp

lemma in_whitelist: "231990 \<in> whitelist_steam" "{231990} \<subseteq> whitelist_steam"
  by (simp_all add: whitelist_steam_def)

text \<open>
  C5: a Steam id of the whitelist never makes \<open>check_steamfixes\<close> raise the
  invalid-id error, whatever the app list and the app-details answers hold; and when
  every id left after both sources is in the whitelist, the check passes.
\<close>

theorem whitelisted_id_never_invalid:
  "(appid \<in> whitelist_steam
      \<longrightarrow> fst (check_steamfixes copy_order order root up) \<noteq> Inl (InvalidSteamAppId appid))
   \<and> (valid_order order \<and> steam_remaining copy_order root up = (Inr R, t) \<and> R \<subseteq> whitelist_steam
      \<longrightarrow> check_steamfixes copy_order order root up = (Inr (), t))"
proof (intro conjI impI)
  assume w: "appid \<in> whitelist_steam"
  show "fst (check_steamfixes copy_order order root up) \<noteq> Inl (InvalidSteamAppId appid)"
  proof (cases rule: check_steamfixes_cases[where copy_order = copy_order and order = order
                  and root = root and up = up])
    case (raised e t)
    with steam_remaining_Inl[OF raised(1)] show ?thesis by auto
  next
    case (judged R t)
    show ?thesis
    proof
      assume "fst (check_steamfixes copy_order order root up) = Inl (InvalidSteamAppId appid)"
      with judged have "steam_verdict order R = Inl (InvalidSteamAppId appid)" by simp
      from steam_verdict_Inl[OF this] w show False by simp
    qed
  qed
next
  assume a: "valid_order order \<and> steam_remaining copy_order root up = (Inr R, t)
               \<and> R \<subseteq> whitelist_steam"
  then have fin: "finite R" using steam_remaining_finite[of copy_order root up R t] by simp
  with a steam_verdict_ok[of order R] have "steam_verdict order R = Inr ()" by simp
  with a show "check_steamfixes copy_order order root up = (Inr (), t)"
    by (simp add: check_steamfixes_def)
qed

text \<open>C5 at \<open>gamefixes-steam/231990.py\<close>, an id that no service knows.\<close>

theorem whitelisted_id_never_invalid_witness:
  "231990 \<in> whitelist_steam
   \<and> fst (check_steamfixes increasing increasing whitelisted_fix knows_nothing)
       \<noteq> Inl (InvalidSteamAppId 231990)
   \<and> valid_order increasing
   \<and> steam_remaining increasing whitelisted_fix knows_nothing =
       (Inr {231990},
        [Urlopen SteamAppList, ConnOpen, ConnRequest (SteamAppDetails 231990), ConnClose])
   \<and> {231990} \<subseteq> whitelist_steam
   \<and> check_steamfixes increasing increasing whitelisted_fix knows_nothing =
       (Inr (),
        [Urlopen SteamAppList, ConnOpen, ConnRequest (SteamAppDetails 231990), ConnClose])"
  using whitelisted_id_never_invalid[where appid = 231990 and copy_order = increasing
          and order = increasing and root = whitelisted_fix and up = knows_nothing
          and R = "{231990}"
          and t = "[Urlopen SteamAppList, ConnOpen, ConnRequest (SteamAppDetails 231990), ConnClose]"]
    valid_increasing steam_remaining_whitelisted in_whitelist
  by simp

lemma steam_remaining_two_unknown:
  "steam_remaining increasing two_unknown_fixes knows_nothing =
     (Inr {99999998, 99999999},
      [Urlopen SteamAppList, ConnOpen, ConnRequest (SteamAppDetails 99999998),
       ConnRequest (SteamAppDetails 99999999), ConnClose])"
  by code_simp

lemma two_unknown_not_whitelisted:
  "\<not> {99999998, 99999999} \<subseteq> whitelist_steam"
  by code_simp

lemma first_of_two_unknown:
  "find (\<lambda>x. x \<notin> whitelist_steam) (increasing {99999998, 99999999}) = Some 99999998"
  by code_simp

lemma gog_remaining_two:
  "gog_remaining two_gog_fixes knows_nothing =
     (Inr {''1'', ''2''},
      [Urlopen (GogProducts {''1'', ''2''}), ConnOpen, ConnRequest UmuDatabase, ConnClose])"
  by code_simp

text \<open>
  C4, as claimed: when ids are left unresolved, the error message of the check
  enumerates all of them. With \<open>99999998.py\<close> and \<open>99999999.py\<close> in
  \<open>gamefixes-steam\<close> and no service knowing either, \<open>check_steamfixes\<close> raises at
  the first id it meets: the message holds one id.
\<close>

theorem steam_message_counterexample:
  "fst (check_steamfixes increasing increasing two_unknown_fixes knows_nothing)
     = Inl (InvalidSteamAppId 99999998)
   \<and> \<not> spec_steam_report increasing increasing two_unknown_fixes knows_nothing"
  by code_simp

text \<open>
  C4, amended: when an id that is not in the whitelist is left after the app list and
  the fallback, \<open>check_steamfixes\<close> fails with an error whose message holds one such
  id, the first in the iteration order of the set; when the set that
  \<open>check_gogfixes\<close> holds after its catalog loop and its two fallbacks is not empty,
  it fails with an error whose message holds every id of that set.
\<close>

theorem unresolved_ids_named:
  "(valid_order order \<and> steam_remaining copy_order root up = (Inr R, t) \<and> \<not> R \<subseteq> whitelist_steam
      \<longrightarrow> (\<exists>a \<in> R - whitelist_steam.
             check_steamfixes copy_order order root up = (Inl (InvalidSteamAppId a), t)
             \<and> steam_ids_named (InvalidSteamAppId a) = {a}
             \<and> find (\<lambda>x. x \<notin> whitelist_steam) (order R) = Some a))
   \<and> (gog_remaining root up = (Inr S, t') \<and> S \<noteq> {}
      \<longrightarrow> check_gogfixes root up = (Inl (InvalidGogAppIds S), t')
          \<and> gog_ids_named (InvalidGogAppIds S) = S)"
proof (intro conjI impI)
  assume a: "valid_order order \<and> steam_remaining copy_order root up = (Inr R, t)
               \<and> \<not> R \<subseteq> whitelist_steam"
  then have fin: "finite R" using steam_remaining_finite[of copy_order root up R t] by simp
  from a have c: "check_steamfixes copy_order order root up = (steam_verdict order R, t)"
    by (simp add: check_steamfixes_def)
  from a fin steam_verdict_error[of order R] obtain x where
    "x \<in> R - whitelist_steam" "steam_verdict order R = Inl (InvalidSteamAppId x)"
    "find (\<lambda>x. x \<notin> whitelist_steam) (order R) = Some x" by blast
  with c show "\<exists>a \<in> R - whitelist_steam.
             check_steamfixes copy_order order root up = (Inl (InvalidSteamAppId a), t)
             \<and> steam_ids_named (InvalidSteamAppId a) = {a}
             \<and> find (\<lambda>x. x \<notin> whitelist_steam) (order R) = Some a"
    by auto
next
  assume "gog_remaining root up = (Inr S, t') \<and> S \<noteq> {}"
  then show "check_gogfixes root up = (Inl (InvalidGogAppIds S), t')"
    by (simp add: check_gogfixes_def gog_verdict_def)
next
  show "gog_ids_named (InvalidGogAppIds S) = S" by simp
qed

text \<open>C4, amended, at two unknown Steam fixes and at two unknown GOG fixes.\<close>

theorem unresolved_ids_named_witness:
  "valid_order increasing
   \<and> steam_remaining increasing two_unknown_fixes knows_nothing =
       (Inr {99999998, 99999999},
        [Urlopen SteamAppList, ConnOpen, ConnRequest (SteamAppDetails 99999998),
         ConnRequest (SteamAppDetails 99999999), ConnClose])
   \<and> \<not> {99999998, 99999999} \<subseteq> whitelist_steam
   \<and> check_steamfixes increasing increasing two_unknown_fixes knows_nothing =
       (Inl (InvalidSteamAppId 99999998),
        [Urlopen SteamAppList, ConnOpen, ConnRequest (SteamAppDetails 99999998),
         ConnRequest (SteamAppDetails 99999999), ConnClose])
   \<and> gog_remaining two_gog_fixes knows_nothing =
       (Inr {''1'', ''2''},
        [Urlopen (GogProducts {''1'', ''2''}), ConnOpen, ConnRequest UmuDatabase, ConnClose])
   \<and> check_gogfixes two_gog_fixes knows_nothing =
       (Inl (InvalidGogAppIds {''1'', ''2''}),
        [Urlopen (GogProducts {''1'', ''2''}), ConnOpen, ConnRequest UmuDatabase, ConnClose])"
proof -
  let ?t = "[Urlopen SteamAppList, ConnOpen, ConnRequest (SteamAppDetails 99999998),
             ConnRequest (SteamAppDetails 99999999), ConnClose]"
  let ?t' = "[Urlopen (GogProducts {''1'', ''2''}), ConnOpen, ConnRequest UmuDatabase, ConnClose]"
  have "\<exists>a \<in> {99999998, 99999999} - whitelist_steam.
          check_steamfixes increasing increasing two_unknown_fixes knows_nothing = (Inl (InvalidSteamAppId a), ?t)
          \<and> steam_ids_named (InvalidSteamAppId a) = {a}
          \<and> find (\<lambda>x. x \<notin> whitelist_steam) (increasing {99999998, 99999999}) = Some a"
    using unresolved_ids_named[where order = increasing and copy_order = increasing
            and root = two_unknown_fixes and up = knows_nothing
            and R = "{99999998, 99999999}" and t = ?t and S = "{}" and t' = "[]"]
      valid_increasing steam_remaining_two_unknown two_unknown_not_whitelisted
    by blast
  then have s: "check_steamfixes increasing increasing two_unknown_fixes knows_nothing
                  = (Inl (InvalidSteamAppId 99999998), ?t)"
    unfolding first_of_two_unknown by auto
  have g: "check_gogfixes two_gog_fixes knows_nothing = (Inl (InvalidGogAppIds {''1'', ''2''}), ?t')"
    using unresolved_ids_named[where order = increasing and copy_order = increasing
            and root = two_gog_fixes and up = knows_nothing
            and R = "{}" and t = "[]" and S = "{''1'', ''2''}" and t' = ?t'] gog_remaining_two
    by simp
  from s g valid_increasing steam_remaining_two_unknown two_unknown_not_whitelisted
    gog_remaining_two
  show ?thesis by simp
qed

section \<open>The run of the four checks\<close>

lemma links_loop_find:
  "links_loop ms =
     (case find (\<lambda>(d, e). is_symlink e \<and> \<not> exists e) ms of
        None \<Rightarrow> Inr ()
      | Some (d, e) \<Rightarrow> Inl (BrokenLink d (name e)))"
  by (induction ms rule: links_loop.induct) simp_all

lemma main_links_failed:
  "check_links root = Inl e \<Longrightarrow> main copy_order order root up = (Inl e, [])"
  by (simp add: main_def)

lemma main_filenames_failed:
  "check_links root = Inr () \<Longrightarrow> check_filenames root = Inl e
   \<Longrightarrow> main copy_order order root up = (Inl e, [])"
  by (simp add: main_def)

lemma main_steam_failed:
  "check_links root = Inr () \<Longrightarrow> check_filenames root = Inr ()
   \<Longrightarrow> check_steamfixes copy_order order root up = (Inl e, t)
   \<Longrightarrow> main copy_order order root up = (Inl e, t)"
  by (simp add: main_def)

lemma main_gog:
  "check_links root = Inr () \<Longrightarrow> check_filenames root = Inr ()
   \<Longrightarrow> check_steamfixes copy_order order root up = (Inr (), t)
   \<Longrightarrow> main copy_order order root up = (fst (check_gogfixes root up), t @ snd (check_gogfixes root up))"
  by (simp add: main_def split: prod.splits)

lemma broken_link_found:
  assumes "list_ex (\<lambda>(d, e). is_symlink e \<and> \<not> exists e) (gamefixes root)"
  shows "\<exists>d e. find (\<lambda>(d, e). is_symlink e \<and> \<not> exists e) (gamefixes root) = Some (d, e)
           \<and> check_links root = Inl (BrokenLink d (name e))"
proof -
  from assms have "find (\<lambda>(d, e). is_symlink e \<and> \<not> exists e) (gamefixes root) \<noteq> None"
    by (auto simp: find_None_iff list_ex_iff)
  then obtain d e where
    "find (\<lambda>(d, e). is_symlink e \<and> \<not> exists e) (gamefixes root) = Some (d, e)" by auto
  then show ?thesis
    by (simp add: check_links_def links_loop_find)
qed

lemma check_links_dangling:
  "check_links dangling_fix = Inl (BrokenLink ''gamefixes-gog'' ''umu-0001.py'')"
  by code_simp

lemma dangling_listed:
  "list_ex (\<lambda>(d, e). is_symlink e \<and> \<not> exists e) (gamefixes dangling_fix)"
  by code_simp

lemma checks_misnamed:
  "check_links misnamed_fix = Inr ()"
  "check_filenames misnamed_fix = Inl (InvalidSteamFilename ''gamefixes-steam'' ''notanumber.py'')"
  by code_simp+

lemma checks_unknown:
  "check_links unknown_fix = Inr ()"
  "check_filenames unknown_fix = Inr ()"
  "check_steamfixes increasing increasing unknown_fix knows_nothing =
     (Inl (InvalidSteamAppId 99999999),
      [Urlopen SteamAppList, ConnOpen, ConnRequest (SteamAppDetails 99999999), ConnClose])"
  by code_simp+

lemma checks_whitelisted:
  "check_links whitelisted_fix = Inr ()"
  "check_filenames whitelisted_fix = Inr ()"
  "check_steamfixes increasing increasing whitelisted_fix knows_nothing =
     (Inr (), [Urlopen SteamAppList, ConnOpen, ConnRequest (SteamAppDetails 231990), ConnClose])"
  "check_gogfixes whitelisted_fix knows_nothing = (Inr (), [Urlopen (GogProducts {})])"
  by code_simp+

text \<open>
  C7: the checks run in the order links, file names, Steam, GOG, and the first failure
  is the result of the run, with the requests made until then and none after; a
  dangling link among the fix modules makes the run fail in \<open>check_links\<close> with no
  request made.
\<close>

theorem main_fail_fast:
  "(check_links root = Inl e \<longrightarrow> main copy_order order root up = (Inl e, []))
   \<and> (check_links root = Inr () \<and> check_filenames root = Inl e
        \<longrightarrow> main copy_order order root up = (Inl e, []))
   \<and> (check_links root = Inr () \<and> check_filenames root = Inr ()
        \<and> check_steamfixes copy_order order root up = (Inl e, t)
        \<longrightarrow> main copy_order order root up = (Inl e, t))
   \<and> (check_links root = Inr () \<and> check_filenames root = Inr ()
        \<and> check_steamfixes copy_order order root up = (Inr (), t)
        \<longrightarrow> main copy_order order root up
              = (fst (check_gogfixes root up), t @ snd (check_gogfixes root up)))
   \<and> (list_ex (\<lambda>(d, e). is_symlink e \<and> \<not> exists e) (gamefixes root)
        \<longrightarrow> (\<exists>d e. find (\<lambda>(d, e). is_symlink e \<and> \<not> exists e) (gamefixes root) = Some (d, e)
                  \<and> main copy_order order root up = (Inl (BrokenLink d (name e)), [])))"
proof (intro conjI impI)
  assume "list_ex (\<lambda>(d, e). is_symlink e \<and> \<not> exists e) (gamefixes root)"
  from broken_link_found[OF this] obtain d e where
    "find (\<lambda>(d, e). is_symlink e \<and> \<not> exists e) (gamefixes root) = Some (d, e)"
    "check_links root = Inl (BrokenLink d (name e))" by blast
  then show "\<exists>d e. find (\<lambda>(d, e). is_symlink e \<and> \<not> exists e) (gamefixes root) = Some (d, e)
                  \<and> main copy_order order root up = (Inl (BrokenLink d (name e)), [])"
    using main_links_failed by blast
qed (simp_all add: main_links_failed main_filenames_failed main_steam_failed main_gog)

text \<open>C7 at a dangling link, a misnamed Steam fix, an unknown Steam id and a
  whitelisted one.\<close>

theorem main_fail_fast_witness:
  "list_ex (\<lambda>(d, e). is_symlink e \<and> \<not> exists e) (gamefixes dangling_fix)
   \<and> check_links dangling_fix = Inl (BrokenLink ''gamefixes-gog'' ''umu-0001.py'')
   \<and> main increasing increasing dangling_fix knows_nothing
       = (Inl (BrokenLink ''gamefixes-gog'' ''umu-0001.py''), [])
   \<and> check_links misnamed_fix = Inr ()
   \<and> check_filenames misnamed_fix
       = Inl (InvalidSteamFilename ''gamefixes-steam'' ''notanumber.py'')
   \<and> main increasing increasing misnamed_fix knows_nothing
       = (Inl (InvalidSteamFilename ''gamefixes-steam'' ''notanumber.py''), [])
   \<and> check_links unknown_fix = Inr () \<and> check_filenames unknown_fix = Inr ()
   \<and> check_steamfixes increasing increasing unknown_fix knows_nothing =
       (Inl (InvalidSteamAppId 99999999),
        [Urlopen SteamAppList, ConnOpen, ConnRequest (SteamAppDetails 99999999), ConnClose])
   \<and> main increasing increasing unknown_fix knows_nothing =
       (Inl (InvalidSteamAppId 99999999),
        [Urlopen SteamAppList, ConnOpen, ConnRequest (SteamAppDetails 99999999), ConnClose])
   \<and> check_links whitelisted_fix = Inr () \<and> check_filenames whitelisted_fix = Inr ()
   \<and> check_steamfixes increasing increasing whitelisted_fix knows_nothing =
       (Inr (), [Urlopen SteamAppList, ConnOpen, ConnRequest (SteamAppDetails 231990), ConnClose])
   \<and> main increasing increasing whitelisted_fix knows_nothing =
       (Inr (), [Urlopen SteamAppList, ConnOpen, ConnRequest (SteamAppDetails 231990), ConnClose,
                 Urlopen (GogProducts {})])"
proof -
  have 1: "main increasing increasing dangling_fix knows_nothing
             = (Inl (BrokenLink ''gamefixes-gog'' ''umu-0001.py''), [])"
    using main_fail_fast[where root = dangling_fix
            and e = "BrokenLink ''gamefixes-gog'' ''umu-0001.py''"
            and copy_order = increasing and order = increasing and up = knows_nothing
            and t = "[]"] check_links_dangling
    by simp
  have 2: "main increasing increasing misnamed_fix knows_nothing
             = (Inl (InvalidSteamFilename ''gamefixes-steam'' ''notanumber.py''), [])"
    using main_fail_fast[where root = misnamed_fix
            and e = "InvalidSteamFilename ''gamefixes-steam'' ''notanumber.py''"
            and copy_order = increasing and order = increasing and up = knows_nothing
            and t = "[]"] checks_misnamed
    by simp
  have 3: "main increasing increasing unknown_fix knows_nothing =
       (Inl (InvalidSteamAppId 99999999),
        [Urlopen SteamAppList, ConnOpen, ConnRequest (SteamAppDetails 99999999), ConnClose])"
    using main_fail_fast[where root = unknown_fix and e = "InvalidSteamAppId 99999999"
            and copy_order = increasing and order = increasing and up = knows_nothing
            and t = "[Urlopen SteamAppList, ConnOpen, ConnRequest (SteamAppDetails 99999999), ConnClose]"]
      checks_unknown
    by simp
  have 4: "main increasing increasing whitelisted_fix knows_nothing =
       (Inr (), [Urlopen SteamAppList, ConnOpen, ConnRequest (SteamAppDetails 231990), ConnClose,
                 Urlopen (GogProducts {})])"
    using main_fail_fast[where root = whitelisted_fix and e = UpstreamError
            and copy_order = increasing and order = increasing and up = knows_nothing
            and t = "[Urlopen SteamAppList, ConnOpen, ConnRequest (SteamAppDetails 231990), ConnClose]"]
      checks_whitelisted
    by simp
  from 1 2 3 4 dangling_listed check_links_dangling checks_misnamed checks_unknown
    checks_whitelisted
  show ?thesis by simp
qed








section \<open>Matching GOG ids\<close>

lemma digit_char_zero: "0 \<le> d \<Longrightarrow> d < 10 \<Longrightarrow> (digit_char d = CHR ''0'') = (d = 0)"
proof -
  assume "0 \<le> d" "d < 10"
  then have "d \<in> {0, 1, 2, 3, 4, 5, 6, 7, 8, 9}" by simp presburger
  then show ?thesis by (auto simp: digit_char_def)
qed

lemma str_digits_not_Nil: "str_digits i \<noteq> []"
  by (subst str_digits.simps) simp

lemma str_digits_hd: "0 < i \<Longrightarrow> hd (str_digits i) \<noteq> CHR ''0''"
proof (induction i rule: str_digits.induct)
  case (1 i)
  show ?case
  proof (cases "i < 10")
    case True
    with "1.prems" digit_char_zero[of i] show ?thesis
      by (subst str_digits.simps) simp
  next
    case False
    then have "0 < i div 10" by simp
    with "1.IH" False have "hd (str_digits (i div 10)) \<noteq> CHR ''0''" by simp
    with False str_digits_not_Nil[of "i div 10"] show ?thesis
      by (subst str_digits.simps) simp
  qed
qed

lemma str_int_no_leading_zero: "str_int i \<noteq> CHR ''0'' # d # ds"
proof (cases "i < 0")
  case True
  then show ?thesis by (simp add: str_int_def)
next
  case False
  show ?thesis
  proof (cases "i = 0")
    case True
    then show ?thesis by (simp add: str_int_def str_digits.simps digit_char_def)
  next
    case nz: False
    with False have "0 < i" by simp
    from str_digits_hd[OF this] False show ?thesis
      by (auto simp: str_int_def)
  qed
qed

lemma reconcile_loop_keeps:
  "reconcile_loop key objs intact appids = Inr rest \<Longrightarrow> c \<in> appids
   \<Longrightarrow> c \<notin> key ` set objs \<Longrightarrow> c \<in> rest"
  using reconcile_loop_removed[of key objs intact appids rest] by auto

lemma reconcile_1234:
  "reconcile_loop str_jval [JInt 1234] True {''01234'', ''1234''} = Inr {''01234''}"
  "reconcile_loop umu_key [JStr ''umu-1234''] True {''1234'', ''umu-1234''} = Inr {''umu-1234''}"
  by code_simp+

text \<open>
  C10: a product removes a candidate only when \<open>str\<close> of its id is that candidate,
  character for character, so an integer id never removes a candidate with a leading
  zero; an entry of the umu database removes a candidate only when its \<open>umu_id\<close>,
  with a leading \<open>umu-\<close> removed, is that candidate.
\<close>

theorem gog_matching_exact:
  "(reconcile_loop str_jval objs intact gogids = Inr rest \<and> c \<in> gogids \<and> c \<notin> rest
      \<longrightarrow> (\<exists>obj \<in> set objs. str_jval obj = c))
   \<and> (reconcile_loop str_jval objs intact gogids = Inr rest \<and> c \<in> gogids
       \<and> c = CHR ''0'' # d # ds
       \<and> list_all (\<lambda>obj. case obj of JInt i \<Rightarrow> True | _ \<Rightarrow> False) objs
      \<longrightarrow> c \<in> rest)
   \<and> (reconcile_loop umu_key objs' intact' appids = Inr rest' \<and> c' \<in> appids \<and> c' \<notin> rest'
      \<longrightarrow> (\<exists>obj \<in> set objs'. removeprefix (str_jval obj) ''umu-'' = c'))"
proof (intro conjI impI)
  assume "reconcile_loop str_jval objs intact gogids = Inr rest \<and> c \<in> gogids \<and> c \<notin> rest"
  then show "\<exists>obj \<in> set objs. str_jval obj = c"
    using reconcile_loop_removed[of str_jval objs intact gogids rest] by auto
next
  assume a: "reconcile_loop str_jval objs intact gogids = Inr rest \<and> c \<in> gogids
       \<and> c = CHR ''0'' # d # ds
       \<and> list_all (\<lambda>obj. case obj of JInt i \<Rightarrow> True | _ \<Rightarrow> False) objs"
  then have r: "reconcile_loop str_jval objs intact gogids = Inr rest" and m: "c \<in> gogids"
    and z: "c = CHR ''0'' # d # ds"
    and ints: "list_all (\<lambda>obj. case obj of JInt i \<Rightarrow> True | _ \<Rightarrow> False) objs"
    by blast+
  have "c \<notin> str_jval ` set objs"
  proof
    assume "c \<in> str_jval ` set objs"
    then obtain obj where o: "obj \<in> set objs" "str_jval obj = c" by auto
    from ints o(1) have "case obj of JInt i \<Rightarrow> True | _ \<Rightarrow> False"
      by (simp add: list_all_iff)
    then obtain i where "obj = JInt i" by (cases obj) simp_all
    with o(2) z str_int_no_leading_zero[of i d ds] show False by simp
  qed
  with reconcile_loop_keeps[OF r m] show "c \<in> rest" .
next
  assume "reconcile_loop umu_key objs' intact' appids = Inr rest' \<and> c' \<in> appids \<and> c' \<notin> rest'"
  then show "\<exists>obj \<in> set objs'. removeprefix (str_jval obj) ''umu-'' = c'"
    using reconcile_loop_removed[of umu_key objs' intact' appids rest']
    by (auto simp: umu_key_def)
qed

text \<open>C10 at the product id 1234 and the candidates \<open>01234\<close> and \<open>1234\<close>.\<close>

theorem gog_matching_exact_witness:
  "reconcile_loop str_jval [JInt 1234] True {''01234'', ''1234''} = Inr {''01234''}
   \<and> ''1234'' \<in> {''01234'', ''1234''} \<and> ''1234'' \<notin> {''01234''}
   \<and> (\<exists>obj \<in> set [JInt 1234]. str_jval obj = ''1234'')
   \<and> ''01234'' \<in> {''01234'', ''1234''}
   \<and> list_all (\<lambda>obj. case obj of JInt i \<Rightarrow> True | _ \<Rightarrow> False) [JInt 1234]
   \<and> ''01234'' \<in> {''01234''}
   \<and> reconcile_loop umu_key [JStr ''umu-1234''] True {''1234'', ''umu-1234''} = Inr {''umu-1234''}
   \<and> ''1234'' \<in> {''1234'', ''umu-1234''} \<and> ''1234'' \<notin> {''umu-1234''}
   \<and> (\<exists>obj \<in> set [JStr ''umu-1234'']. removeprefix (str_jval obj) ''umu-'' = ''1234'')"
proof -
  note t = gog_matching_exact[of "[JInt 1234]" True "{''01234'', ''1234''}" "{''01234''}" _ _ _
          "[JStr ''umu-1234'']" True "{''1234'', ''umu-1234''}" "{''umu-1234''}" "''1234''"]
  note r = reconcile_1234
  have m1: "''1234'' \<in> {''01234'', ''1234''}" by simp
  have m2: "''1234'' \<notin> {''01234''}" by simp
  have m3: "''01234'' \<in> {''01234'', ''1234''}" by simp
  have m4: "''01234'' = CHR ''0'' # CHR ''1'' # ''234''" by simp
  have m5: "list_all (\<lambda>obj. case obj of JInt i \<Rightarrow> True | _ \<Rightarrow> False) [JInt 1234]" by simp
  have m6: "''1234'' \<in> {''1234'', ''umu-1234''}" by simp
  have m7: "''1234'' \<notin> {''umu-1234''}" by simp
  have c1: "\<exists>obj \<in> set [JInt 1234]. str_jval obj = ''1234''"
    by (rule mp[OF conjunct1[OF t[of "''1234''" "CHR ''1''" "''234''"]]])
       (intro conjI r(1) m1 m2)
  have c2: "''01234'' \<in> {''01234''}"
    by (rule mp[OF conjunct1[OF conjunct2[OF t[of "''01234''" "CHR ''1''" "''234''"]]]])
       (intro conjI r(1) m3 m4 m5)
  have c3: "\<exists>obj \<in> set [JStr ''umu-1234'']. removeprefix (str_jval obj) ''umu-'' = ''1234''"
    by (rule mp[OF conjunct2[OF conjunct2[OF t[of "''1234''" "CHR ''1''" "''234''"]]]])
       (intro conjI r(2) m6 m7)
  show ?thesis
    by (intro conjI r m1 m2 m3 m5 m6 m7 c1 c2 c3)
qed

end
